theory Spec2Isabelle
  imports Complex_Main
begin

section \<open>Data model\<close>

text \<open>
  The freehand draw shape of \<^verbatim>\<open>packages/dev/src/state/shapes/draw.tsx\<close>.
  JavaScript numbers are modelled as real numbers, and the places where the JavaScript
  value would be NaN or an infinity (a division by zero) are explicit error results.
  Arithmetic is exact, except in \<^verbatim>\<open>onSessionComplete\<close>, whose results are rounded as
  the doubles of the program are (see the section on double arithmetic).

  A \<^verbatim>\<open>number[]\<close> used as a 2D vector is a pair; an element of \<^verbatim>\<open>DrawShape['points']\<close>
  is a triple \<open>(x, y, pressure)\<close>, as in \<^verbatim>\<open>points: [[0, 0, 0.5]]\<close> of the default props.
  The pressure may be missing (a point of two numbers): reading it then gives
  \<^verbatim>\<open>undefined\<close>, here \<open>None\<close>.
\<close>

type_synonym vec = "real \<times> real"
type_synonym pnt = "real \<times> real \<times> real option"

definition px :: "pnt \<Rightarrow> real" where "px p = fst p"
definition py :: "pnt \<Rightarrow> real" where "py p = fst (snd p)"
definition pressure :: "pnt \<Rightarrow> real option" where "pressure p = snd (snd p)"
definition xy :: "pnt \<Rightarrow> vec" where "xy p = (px p, py p)"

record TLBounds =
  minX :: real
  minY :: real
  maxX :: real
  maxY :: real
  width :: real
  height :: real

datatype error = EmptyInput | NotFinite | TypeError

text \<open>
  Objects that key a \<^verbatim>\<open>WeakMap\<close> carry their identity: two values with the same
  identity are the same JavaScript object (possibly observed at different times).
\<close>

type_synonym ref = nat

record PointsArray =
  arr_id :: ref
  elems :: "pnt list"

record DrawStyle =
  size_s :: real
  strokeWidth :: real
  thinning :: real
  streamline :: real
  smoothing :: real
  taperStart :: real
  taperEnd :: real
  capStart :: bool
  capEnd :: bool
  isFilled :: bool
  color :: string

text \<open>The fields \<^verbatim>\<open>size\<close>, \<^verbatim>\<open>id\<close> and \<^verbatim>\<open>name\<close> carry a suffix, since the plain names
  are taken. The constant field \<^verbatim>\<open>type = 'draw'\<close> is left out.\<close>

record DrawShape =
  obj_id :: ref
  id_s :: string
  name_s :: string
  parentId :: string
  childIndex :: real
  point :: vec
  points :: PointsArray
  rotation :: real
  isDone :: bool
  style :: DrawStyle

text \<open>The instance state of the class \<^verbatim>\<open>Draw\<close>: its caches, each a \<^verbatim>\<open>WeakMap\<close>
  from an object identity to the cached value. \<^verbatim>\<open>boundsCache\<close> is the one inherited
  from \<^verbatim>\<open>TLShapeUtil\<close> and used by \<^verbatim>\<open>transform\<close>.\<close>

record Draw =
  pointsBoundsCache :: "ref \<rightharpoonup> TLBounds"
  rotatedCache :: "ref \<rightharpoonup> vec list"
  drawPathCache :: "ref \<rightharpoonup> string"
  simplePathCache :: "ref \<rightharpoonup> string"
  strokeCache :: "ref \<rightharpoonup> vec list"
  boundsCache :: "ref \<rightharpoonup> TLBounds"

definition new_Draw :: Draw where
  "new_Draw = \<lparr> pointsBoundsCache = Map.empty, rotatedCache = Map.empty,
     drawPathCache = Map.empty, simplePathCache = Map.empty,
     strokeCache = Map.empty, boundsCache = Map.empty \<rparr>"

section \<open>Geometry primitives of the core library\<close>

text \<open>The shape utility builds on \<^verbatim>\<open>Utils\<close>, \<^verbatim>\<open>Vec\<close> and \<^verbatim>\<open>Intersect\<close> of the
  library \<^verbatim>\<open>@tldraw/core\<close>. Their definitions here follow the specification's
  description of each operation.\<close>


text \<open>Modelled from the spec: \<^verbatim>\<open>Vec.sub\<close> (vector subtract).\<close>

definition Vec_sub :: "vec \<Rightarrow> vec \<Rightarrow> vec" where
  "Vec_sub a b = (fst a - fst b, snd a - snd b)"

text \<open>Modelled from the spec: \<^verbatim>\<open>Vec.neg\<close> (vector negate).\<close>

definition Vec_neg :: "vec \<Rightarrow> vec" where
  "Vec_neg a = (- fst a, - snd a)"

text \<open>Modelled from the spec: \<^verbatim>\<open>Vec.rotWith\<close> (rotate a point about a pivot by an
  angle, counter-clockwise convention).\<close>

definition Vec_rotWith :: "vec \<Rightarrow> vec \<Rightarrow> real \<Rightarrow> vec" where
  "Vec_rotWith a c r =
     (let dx = fst a - fst c; dy = snd a - snd c
      in (fst c + (dx * cos r - dy * sin r), snd c + (dx * sin r + dy * cos r)))"

text \<open>Modelled from the spec: \<^verbatim>\<open>Utils.translateBounds\<close> (translate a bounds record by
  an offset).\<close>

definition translateBounds :: "TLBounds \<Rightarrow> vec \<Rightarrow> TLBounds" where
  "translateBounds b delta =
     \<lparr> minX = minX b + fst delta, minY = minY b + snd delta,
       maxX = maxX b + fst delta, maxY = maxY b + snd delta,
       width = width b, height = height b \<rparr>"

text \<open>Modelled from the spec: \<^verbatim>\<open>Utils.getBoundsCenter\<close> (the center point of a
  bounds record).\<close>

definition getBoundsCenter :: "TLBounds \<Rightarrow> vec" where
  "getBoundsCenter b = (minX b + width b / 2, minY b + height b / 2)"

text \<open>Modelled from the spec: \<^verbatim>\<open>Utils.boundsContain\<close> (whether bounds \<open>a\<close> fully
  contains bounds \<open>b\<close>).\<close>

definition boundsContain :: "TLBounds \<Rightarrow> TLBounds \<Rightarrow> bool" where
  "boundsContain a b \<longleftrightarrow>
     minX a \<le> minX b \<and> minY a \<le> minY b \<and> maxX b \<le> maxX a \<and> maxY b \<le> maxY a"

text \<open>Modelled from the spec: the envelope that \<^verbatim>\<open>Utils.getBoundsFromPoints\<close> takes of a
  non-empty sequence of vectors, by one pass that keeps the running minimum and maximum
  of each coordinate; the record is normalised (\<open>width = maxX - minX\<close>,
  \<open>height = maxY - minY\<close>).\<close>

definition envelope :: "vec \<Rightarrow> vec list \<Rightarrow> TLBounds" where
  "envelope v vs =
     (let x0 = fold min (map fst vs) (fst v); y0 = fold min (map snd vs) (snd v);
          x1 = fold max (map fst vs) (fst v); y1 = fold max (map snd vs) (snd v)
      in \<lparr> minX = x0, minY = y0, maxX = x1, maxY = y1,
           width = x1 - x0, height = y1 - y0 \<rparr>)"

text \<open>Modelled from the spec: \<^verbatim>\<open>Utils.getBoundsFromPoints\<close> (bounds from a point set,
  optionally pre-rotating each point by a given angle about the set's own center before
  taking the envelope; an empty sequence fails with an empty-input error). This is the
  call without the optional angle.\<close>

definition getBoundsFromPoints :: "pnt list \<Rightarrow> error + TLBounds" where
  "getBoundsFromPoints pts =
     (case map xy pts of
        [] \<Rightarrow> Inl EmptyInput
      | v # vs \<Rightarrow> Inr (envelope v vs))"

text \<open>Modelled from the spec: \<^verbatim>\<open>Utils.getBoundsFromPoints\<close> called with the optional
  angle: each point is rotated by the angle about the center of the unrotated bounds
  before the envelope is taken.\<close>

definition getBoundsFromPoints_rot :: "pnt list \<Rightarrow> real \<Rightarrow> error + TLBounds" where
  "getBoundsFromPoints_rot pts r =
     (case map xy pts of
        [] \<Rightarrow> Inl EmptyInput
      | v # vs \<Rightarrow>
          (let c = getBoundsCenter (envelope v vs)
           in Inr (envelope (Vec_rotWith v c r) (map (\<lambda>a. Vec_rotWith a c r) vs))))"

text \<open>Modelled from the spec: \<^verbatim>\<open>Utils.getFromCache\<close> (identical key: return the
  previously computed value without recomputation; otherwise compute and store). The
  computation may fail, in which case nothing is stored and the failure propagates.\<close>

definition getFromCache ::
  "(ref \<rightharpoonup> 'v) \<Rightarrow> ref \<Rightarrow> (error + 'v) \<Rightarrow> (error + 'v) \<times> (ref \<rightharpoonup> 'v)" where
  "getFromCache cache key getNext =
     (case cache key of
        Some v \<Rightarrow> (Inr v, cache)
      | None \<Rightarrow>
          (case getNext of
             Inl e \<Rightarrow> (Inl e, cache)
           | Inr v \<Rightarrow> (Inr v, cache(key \<mapsto> v))))"

section \<open>Double arithmetic\<close>

text \<open>The claims about \<^verbatim>\<open>onSessionComplete\<close> are about exact equality of numbers, which
  rounding decides. There every addition and subtraction is the exact one followed by
  the rounding of IEEE 754 binary64: to the nearest number with a significand of 53 bits,
  a tie going to the even significand, with the subnormal numbers below \<open>2^-1022\<close>.
  Results of magnitude \<open>2^1024\<close> and more, which the program rounds to an infinity, are
  outside the model.\<close>







section \<open>Intersections of the core library\<close>

text \<open>Modelled from the spec: the test of a polyline segment against an edge of a box,
  in \<^verbatim>\<open>Intersect\<close>, is the test whether two closed line segments share a point. It is
  computed from orientations: \<open>cross o a b\<close> is positive, zero or negative as the turn
  \<open>o \<rightarrow> a \<rightarrow> b\<close> is to the left, straight or to the right.\<close>

definition cross :: "vec \<Rightarrow> vec \<Rightarrow> vec \<Rightarrow> real" where
  "cross o' a b = (fst a - fst o') * (snd b - snd o') - (snd a - snd o') * (fst b - fst o')"

text \<open>Modelled from the spec: whether \<open>r\<close> lies in the box spanned by \<open>p\<close> and \<open>q\<close>
  (for a point on the line through \<open>p\<close> and \<open>q\<close>: whether it lies on the segment).\<close>

definition inBox :: "vec \<Rightarrow> vec \<Rightarrow> vec \<Rightarrow> bool" where
  "inBox p q r \<longleftrightarrow>
     min (fst p) (fst q) \<le> fst r \<and> fst r \<le> max (fst p) (fst q) \<and>
     min (snd p) (snd q) \<le> snd r \<and> snd r \<le> max (snd p) (snd q)"

text \<open>Modelled from the spec: whether two closed line segments share a point; touching
  counts.\<close>

definition segmentsMeet :: "vec \<Rightarrow> vec \<Rightarrow> vec \<Rightarrow> vec \<Rightarrow> bool" where
  "segmentsMeet a1 a2 b1 b2 =
     (let d1 = cross b1 b2 a1; d2 = cross b1 b2 a2;
          d3 = cross a1 a2 b1; d4 = cross a1 a2 b2
      in ((0 < d1 \<and> d2 < 0 \<or> d1 < 0 \<and> 0 < d2) \<and> (0 < d3 \<and> d4 < 0 \<or> d3 < 0 \<and> 0 < d4))
         \<or> (d1 = 0 \<and> inBox b1 b2 a1) \<or> (d2 = 0 \<and> inBox b1 b2 a2)
         \<or> (d3 = 0 \<and> inBox a1 a2 b1) \<or> (d4 = 0 \<and> inBox a1 a2 b2))"

text \<open>Modelled from the spec: the four edges of a box.\<close>

definition edges :: "TLBounds \<Rightarrow> (vec \<times> vec) list" where
  "edges b =
     [((minX b, minY b), (maxX b, minY b)), ((maxX b, minY b), (maxX b, maxY b)),
      ((maxX b, maxY b), (minX b, maxY b)), ((minX b, maxY b), (minX b, minY b))]"

text \<open>Modelled from the spec: the segments between consecutive points of a polyline.\<close>

fun segments :: "vec list \<Rightarrow> (vec \<times> vec) list" where
  "segments (a # b # rest) = (a, b) # segments (b # rest)"
| "segments _ = []"

text \<open>Modelled from the spec: a segment is tested against the box's four edges.\<close>

definition segmentHitsBounds :: "TLBounds \<Rightarrow> vec \<times> vec \<Rightarrow> bool" where
  "segmentHitsBounds b sg = list_ex (\<lambda>e. segmentsMeet (fst sg) (snd sg) (fst e) (snd e)) (edges b)"

text \<open>Modelled from the spec: \<^verbatim>\<open>Intersect.bounds.bounds\<close> (box against box: the
  interval-overlap test on both axes, touching counts). The result is the list of
  intersections found, of which the callers only ask whether it is empty; here it holds the
  common region.\<close>

definition Intersect_bounds_bounds :: "TLBounds \<Rightarrow> TLBounds \<Rightarrow> TLBounds list" where
  "Intersect_bounds_bounds a b =
     (if minX a \<le> maxX b \<and> minX b \<le> maxX a \<and> minY a \<le> maxY b \<and> minY b \<le> maxY a
      then [\<lparr> minX = max (minX a) (minX b), minY = max (minY a) (minY b),
               maxX = min (maxX a) (maxX b), maxY = min (maxY a) (maxY b),
               width = min (maxX a) (maxX b) - max (minX a) (minX b),
               height = min (maxY a) (maxY b) - max (minY a) (minY b) \<rparr>]
      else [])"

text \<open>Modelled from the spec: \<^verbatim>\<open>Intersect.polyline.bounds\<close> (each polyline segment is
  tested against the box's four edges). The result lists the segments that meet an
  edge.\<close>

definition Intersect_polyline_bounds :: "vec list \<Rightarrow> TLBounds \<Rightarrow> (vec \<times> vec) list" where
  "Intersect_polyline_bounds pts b = filter (segmentHitsBounds b) (segments pts)"

text \<open>Modelled from the spec: \<^verbatim>\<open>Intersect.bounds.polyline\<close>, the symmetric form.\<close>

definition Intersect_bounds_polyline :: "TLBounds \<Rightarrow> vec list \<Rightarrow> (vec \<times> vec) list" where
  "Intersect_bounds_polyline b pts = Intersect_polyline_bounds pts b"

section \<open>The draw shape utility\<close>

subsection \<open>Bounds\<close>

text \<open>\<^verbatim>\<open>getBounds\<close>: the cached local bounds of \<^verbatim>\<open>shape.points\<close>, translated by
  \<^verbatim>\<open>shape.point\<close>. The cache is keyed by the identity of the points array.\<close>

definition getBounds :: "Draw \<Rightarrow> DrawShape \<Rightarrow> (error + TLBounds) \<times> Draw" where
  "getBounds this shape =
     (case getFromCache (pointsBoundsCache this) (arr_id (points shape))
             (getBoundsFromPoints (elems (points shape))) of
        (Inl e, c) \<Rightarrow> (Inl e, this\<lparr>pointsBoundsCache := c\<rparr>)
      | (Inr b, c) \<Rightarrow> (Inr (translateBounds b (point shape)), this\<lparr>pointsBoundsCache := c\<rparr>))"

text \<open>\<^verbatim>\<open>getRotatedBounds\<close>: not cached.\<close>

definition getRotatedBounds :: "DrawShape \<Rightarrow> error + TLBounds" where
  "getRotatedBounds shape =
     (case getBoundsFromPoints_rot (elems (points shape)) (rotation shape) of
        Inl e \<Rightarrow> Inl e
      | Inr b \<Rightarrow> Inr (translateBounds b (point shape)))"

subsection \<open>Hit testing\<close>

text \<open>\<^verbatim>\<open>hitTest\<close> of the contract takes the shape and the query point; the draw shape
  ignores both.\<close>

definition hitTest :: "DrawShape \<Rightarrow> vec \<Rightarrow> bool" where
  "hitTest shape p = True"

text \<open>\<^verbatim>\<open>hitTestBounds\<close>. \<^verbatim>\<open>!shape.rotation\<close> holds of the number 0 (and of NaN, which
  is no real number); \<^verbatim>\<open>shape.rotation || 0\<close> is then the rotation itself.\<close>

definition hitTestBounds :: "Draw \<Rightarrow> DrawShape \<Rightarrow> TLBounds \<Rightarrow> (error + bool) \<times> Draw" where
  "hitTestBounds this shape brushBounds =
     (if rotation shape = 0 then
        (case getBounds this shape of
           (Inl e, this') \<Rightarrow> (Inl e, this')
         | (Inr bounds, this') \<Rightarrow>
             (Inr (boundsContain brushBounds bounds \<or>
                   ((boundsContain bounds brushBounds \<or>
                     Intersect_bounds_bounds bounds brushBounds \<noteq> []) \<and>
                    Intersect_polyline_bounds (map xy (elems (points shape)))
                      (translateBounds brushBounds (Vec_neg (point shape))) \<noteq> [])),
              this'))
      else
        (case getRotatedBounds shape of
           Inl e \<Rightarrow> (Inl e, this)
         | Inr rBounds \<Rightarrow>
             (case getFromCache (rotatedCache this) (obj_id shape)
                     (case getBoundsFromPoints (elems (points shape)) of
                        Inl e \<Rightarrow> Inl e
                      | Inr b \<Rightarrow>
                          (let c = getBoundsCenter b
                           in Inr (map (\<lambda>pt. Vec_rotWith (xy pt) c (rotation shape))
                                     (elems (points shape))))) of
                (Inl e, c) \<Rightarrow> (Inl e, this\<lparr>rotatedCache := c\<rparr>)
              | (Inr rotatedBounds, c) \<Rightarrow>
                  (Inr (boundsContain brushBounds rBounds \<or>
                        Intersect_bounds_polyline
                          (translateBounds brushBounds (Vec_neg (point shape)))
                          rotatedBounds \<noteq> []),
                   this\<lparr>rotatedCache := c\<rparr>))))"

subsection \<open>Transforming and normalising\<close>

text \<open>The part of \<^verbatim>\<open>TLTransformInfo\<close> that \<^verbatim>\<open>transform\<close> reads, and the
  \<^verbatim>\<open>Partial<DrawShape>\<close> that \<^verbatim>\<open>transform\<close> and \<^verbatim>\<open>onSessionComplete\<close> return: a
  new points array (its contents; the array is a fresh object) and a new point.\<close>

record TLTransformInfo =
  initialShape :: DrawShape
  scaleX :: real
  scaleY :: real

record PartialDrawShape =
  new_points :: "pnt list"
  new_point :: vec

text \<open>\<^verbatim>\<open>transform\<close>. A division by a zero width or height of the initial bounds gives
  NaN or an infinity in every coordinate of the JavaScript result; that outcome is the
  result \<open>Inl NotFinite\<close>. It is no exception: a failing \<^verbatim>\<open>getBoundsFromPoints\<close> on
  \<^verbatim>\<open>shape.points\<close> comes first.\<close>

definition transform ::
  "Draw \<Rightarrow> DrawShape \<Rightarrow> TLBounds \<Rightarrow> TLTransformInfo \<Rightarrow> (error + PartialDrawShape) \<times> Draw" where
  "transform this shape bounds info =
     (case getFromCache (boundsCache this) (obj_id (initialShape info))
             (getBoundsFromPoints (elems (points (initialShape info)))) of
        (Inl e, c) \<Rightarrow> (Inl e, this\<lparr>boundsCache := c\<rparr>)
      | (Inr initialShapeBounds, c) \<Rightarrow>
          (let pts = map (\<lambda>p.
                 (width bounds *
                    (if scaleX info < 0 then 1 - px p / width initialShapeBounds
                     else px p / width initialShapeBounds),
                  height bounds *
                    (if scaleY info < 0 then 1 - py p / height initialShapeBounds
                     else py p / height initialShapeBounds),
                  pressure p))
                 (elems (points (initialShape info)))
           in (case getBoundsFromPoints (elems (points shape)) of
                 Inl e \<Rightarrow> (Inl e, this\<lparr>boundsCache := c\<rparr>)
               | Inr newBounds \<Rightarrow>
                   (if width initialShapeBounds = 0 \<or> height initialShapeBounds = 0
                    then (Inl NotFinite, this\<lparr>boundsCache := c\<rparr>)
                    else (Inr \<lparr> new_points = pts,
                                new_point = Vec_sub (minX bounds, minY bounds)
                                              (minX newBounds, minY newBounds) \<rparr>,
                          this\<lparr>boundsCache := c\<rparr>)))))"

definition transformSingle ::
  "Draw \<Rightarrow> DrawShape \<Rightarrow> TLBounds \<Rightarrow> TLTransformInfo \<Rightarrow> (error + PartialDrawShape) \<times> Draw" where
  "transformSingle this shape bounds info = transform this shape bounds info"


subsection \<open>Rendering\<close>

text \<open>What \<^verbatim>\<open>draw.tsx\<close> takes from outside and what the language itself provides, as
  parameters: the outline generator \<^verbatim>\<open>getStroke\<close> and the resampler
  \<^verbatim>\<open>getStrokePoints\<close> of \<^verbatim>\<open>perfect-freehand\<close> (the latter already composed with
  \<^verbatim>\<open>.map((pt) => pt.point)\<close>), \<^verbatim>\<open>Utils.getSvgPathFromStroke\<close>, the conversion of a
  number to a string in a template literal or in \<^verbatim>\<open>join\<close>, \<^verbatim>\<open>toFixed(2)\<close>, and the
  \<^verbatim>\<open>replaceAll\<close> with the regular expression of \<^verbatim>\<open>getSolidStrokePath\<close>.\<close>

record TaperCap =
  taper :: real
  cap :: bool

record StrokeOptions =
  opt_size :: real
  opt_thinning :: real
  opt_streamline :: real
  opt_smoothing :: real
  opt_end :: TaperCap
  opt_start :: TaperCap
  simulatePressure :: bool
  opt_last :: bool

record Externals =
  getStroke :: "pnt list \<Rightarrow> StrokeOptions \<Rightarrow> vec list"
  getStrokePoints :: "pnt list \<Rightarrow> vec list"
  getSvgPathFromStroke :: "vec list \<Rightarrow> string"
  toString :: "real \<Rightarrow> string"
  toFixed2 :: "real \<Rightarrow> string"
  replaceAll_decimals :: "string \<Rightarrow> string"

text \<open>A JSX element: its tag and its props in the order written.\<close>

datatype attr = Num real | Str string

datatype JSX = Elem string "(string \<times> attr) list"

definition tagOf :: "JSX \<Rightarrow> string" where
  "tagOf e = (case e of Elem t ps \<Rightarrow> t)"

definition propOf :: "JSX \<Rightarrow> string \<Rightarrow> attr option" where
  "propOf e k = (case e of Elem t ps \<Rightarrow> map_of ps k)"

text \<open>\<^verbatim>\<open>fill ? strokeWidth || 1 : strokeWidth\<close>: a string is truthy unless empty, a
  number unless 0.\<close>

definition strokeWidthProp :: "string \<Rightarrow> real \<Rightarrow> real" where
  "strokeWidthProp fill sw = (if fill \<noteq> [] then (if sw \<noteq> 0 then sw else 1) else sw)"

text \<open>The options object that \<^verbatim>\<open>render\<close> passes to \<^verbatim>\<open>getStroke\<close>.\<close>

definition strokeOptions :: "DrawShape \<Rightarrow> StrokeOptions" where
  "strokeOptions shape =
     (let st = style shape
      in \<lparr> opt_size = size_s st, opt_thinning = thinning st,
           opt_streamline = streamline st, opt_smoothing = smoothing st,
           opt_end = \<lparr> taper = taperEnd st, cap = capEnd st \<rparr>,
           opt_start = \<lparr> taper = taperStart st, cap = capStart st \<rparr>,
           simulatePressure = (pressure (elems (points shape) ! 1) = Some 0.5),
           opt_last = isDone shape \<rparr>)"

text \<open>The props shared by the circle and the path of \<^verbatim>\<open>render\<close>.\<close>

definition paintProps :: "DrawShape \<Rightarrow> (string \<times> attr) list" where
  "paintProps shape =
     (let st = style shape;
          fill = (if isFilled st then color st else ''none'')
      in [(''fill'', Str fill),
          (''stroke'', Str (color st)),
          (''strokeWidth'', Num (strokeWidthProp fill (strokeWidth st)))])"

text \<open>\<^verbatim>\<open>render\<close>. The render info (\<^verbatim>\<open>isDarkMode\<close>) is not read. The index 1 of
  \<^verbatim>\<open>shape.points[1][2]\<close> is in range, since it is read only where the length exceeds 2.\<close>

definition render :: "Externals \<Rightarrow> Draw \<Rightarrow> DrawShape \<Rightarrow> bool \<Rightarrow> (error + JSX) \<times> Draw" where
  "render ext this shape isDarkMode =
     (case getBounds this shape of
        (Inl e, this') \<Rightarrow> (Inl e, this')
      | (Inr bounds, this') \<Rightarrow>
          (if (length (elems (points shape)) \<le> 2 \<or>
               (width bounds < size_s (style shape) / 2 \<and>
                height bounds < size_s (style shape) / 2)) \<and>
              isDone shape
           then (Inr (Elem ''circle''
                        ([(''r'', Num (size_s (style shape) * 0.32))] @ paintProps shape @
                         [(''pointerEvents'', Str ''all'')])),
                 this')
           else
             (case (if length (elems (points shape)) > 2
                    then (let stroke = getStroke ext (drop 2 (elems (points shape)))
                                         (strokeOptions shape)
                          in (getSvgPathFromStroke ext stroke,
                              this'\<lparr>strokeCache :=
                                      (strokeCache this')(obj_id shape \<mapsto> stroke)\<rparr>))
                    else ([], this')) of
                (drawPathData, this'') \<Rightarrow>
                  (Inr (Elem ''path''
                          ([(''d'', Str drawPathData)] @ paintProps shape @
                           [(''strokeLinejoin'', Str ''round''),
                            (''strokeLinecap'', Str ''round''),
                            (''pointerEvents'', Str ''all'')])),
                   this''))))"

text \<open>The \<^verbatim>\<open>reduce\<close> of \<^verbatim>\<open>getSolidStrokePath\<close>: the tokens pushed for the points that
  remain. The last point pushes \<^verbatim>\<open>'L', x0, y0\<close>, every other one the fixed-point forms
  of itself and of the midpoint to its successor.\<close>

fun pathTokens :: "Externals \<Rightarrow> vec list \<Rightarrow> string list" where
  "pathTokens ext [] = []"
| "pathTokens ext [(x0, y0)] = [''L'', toString ext x0, toString ext y0]"
| "pathTokens ext ((x0, y0) # (x1, y1) # rest) =
     [toFixed2 ext x0, toFixed2 ext y0,
      toFixed2 ext ((x0 + x1) / 2), toFixed2 ext ((y0 + y1) / 2)]
     @ pathTokens ext ((x1, y1) # rest)"

text \<open>\<^verbatim>\<open>Array.prototype.join(' ')\<close> on strings.\<close>

fun join :: "string list \<Rightarrow> string" where
  "join [] = []"
| "join [t] = t"
| "join (t # ts) = t @ '' '' @ join ts"

text \<open>\<^verbatim>\<open>getSolidStrokePath\<close>. With three or more points, an empty resampled sequence
  makes the initial value of the \<^verbatim>\<open>reduce\<close> read \<^verbatim>\<open>points[0][0]\<close> of
  \<^verbatim>\<open>undefined\<close>, a \<^verbatim>\<open>TypeError\<close>.\<close>

definition getSolidStrokePath :: "Externals \<Rightarrow> DrawShape \<Rightarrow> error + string" where
  "getSolidStrokePath ext shape =
     (let pts = elems (points shape); len = length pts
      in if len = 0 then Inr ''M 0 0 L 0 0''
         else if len < 3
         then Inr (''M '' @ toString ext (px (pts ! 0)) @ '' '' @ toString ext (py (pts ! 0)))
         else (case getStrokePoints ext pts of
                 [] \<Rightarrow> Inl TypeError
               | (x, y) # rest \<Rightarrow>
                   Inr (replaceAll_decimals ext
                          (join ([''M'', toString ext x, toString ext y, ''Q'']
                                 @ pathTokens ext ((x, y) # rest))))))"

text \<open>\<^verbatim>\<open>renderIndicator\<close>: the path is cached under the identity of the points array.\<close>

definition renderIndicator :: "Externals \<Rightarrow> Draw \<Rightarrow> DrawShape \<Rightarrow> (error + JSX) \<times> Draw" where
  "renderIndicator ext this shape =
     (case getFromCache (simplePathCache this) (arr_id (points shape))
             (getSolidStrokePath ext shape) of
        (Inl e, c) \<Rightarrow> (Inl e, this\<lparr>simplePathCache := c\<rparr>)
      | (Inr path, c) \<Rightarrow> (Inr (Elem ''path'' [(''d'', Str path)]), this\<lparr>simplePathCache := c\<rparr>))"

subsection \<open>Cache invariants\<close>

text \<open>The cache invariant of the data model: an entry stored under the identity of the
  shape's points array was computed from the array's present contents (point data is
  never edited in place).\<close>

definition pointsBoundsCache_ok :: "Draw \<Rightarrow> DrawShape \<Rightarrow> bool" where
  "pointsBoundsCache_ok this shape \<longleftrightarrow>
     (case pointsBoundsCache this (arr_id (points shape)) of
        None \<Rightarrow> True
      | Some b \<Rightarrow> getBoundsFromPoints (elems (points shape)) = Inr b)"

text \<open>The same for \<^verbatim>\<open>boundsCache\<close>, keyed by the identity of the shape.\<close>

definition boundsCache_ok :: "Draw \<Rightarrow> DrawShape \<Rightarrow> bool" where
  "boundsCache_ok this shape \<longleftrightarrow>
     (case boundsCache this (obj_id shape) of
        None \<Rightarrow> True
      | Some b \<Rightarrow> getBoundsFromPoints (elems (points shape)) = Inr b)"

text \<open>The same for \<^verbatim>\<open>simplePathCache\<close>, keyed by the identity of the points array.\<close>

definition simplePathCache_ok :: "Externals \<Rightarrow> Draw \<Rightarrow> DrawShape \<Rightarrow> bool" where
  "simplePathCache_ok ext this shape \<longleftrightarrow>
     (case simplePathCache this (arr_id (points shape)) of
        None \<Rightarrow> True
      | Some path \<Rightarrow> getSolidStrokePath ext shape = Inr path)"

section \<open>Reference notions and example shapes\<close>

text \<open>The axis-aligned bounding box of a set of vectors, said directly: every vector lies
  within the four sides, each side is attained by some vector, and the record is
  normalised.\<close>

definition is_aabb :: "TLBounds \<Rightarrow> vec list \<Rightarrow> bool" where
  "is_aabb b vs \<longleftrightarrow>
     (\<forall>v \<in> set vs. minX b \<le> fst v \<and> fst v \<le> maxX b \<and> minY b \<le> snd v \<and> snd v \<le> maxY b) \<and>
     (\<exists>v \<in> set vs. fst v = minX b) \<and> (\<exists>v \<in> set vs. fst v = maxX b) \<and>
     (\<exists>v \<in> set vs. snd v = minY b) \<and> (\<exists>v \<in> set vs. snd v = maxY b) \<and>
     width b = maxX b - minX b \<and> height b = maxY b - minY b"

text \<open>\<^verbatim>\<open>defaultProps\<close> of the class, and a shape of three points placed at \<open>(3, 4)\<close>.\<close>

definition defaultProps :: DrawShape where
  "defaultProps =
     \<lparr> obj_id = 0, id_s = ''id'', name_s = ''Draw'', parentId = ''page'', childIndex = 1,
       point = (0, 0), points = \<lparr> arr_id = 0, elems = [(0, 0, Some 0.5)] \<rparr>,
       rotation = 0, isDone = False,
       style = \<lparr> size_s = 8, strokeWidth = 0, thinning = 0.75, streamline = 0.5,
                 smoothing = 0.5, taperStart = 0, taperEnd = 0, capStart = True,
                 capEnd = True, isFilled = True, color = ''#000'' \<rparr> \<rparr>"

definition corner_shape :: DrawShape where
  "corner_shape = defaultProps
     \<lparr> obj_id := 1, point := (3, 4),
       points := \<lparr> arr_id = 1, elems = [(0, 0, Some 0.5), (10, 0, Some 0.5), (10, 10, Some 0.5)] \<rparr> \<rparr>"

text \<open>A shape whose points do not start at the local origin, and what
  \<^verbatim>\<open>onSessionComplete\<close> makes of it.\<close>

definition offset_shape :: DrawShape where
  "offset_shape = defaultProps
     \<lparr> obj_id := 2, point := (3, 4),
       points := \<lparr> arr_id = 2, elems = [(5, 7, Some 0.5), (15, 7, Some 0.5), (15, 17, Some 0.5)] \<rparr> \<rparr>"



text \<open>The trivial indicator path: the fixed degenerate path for no points, else a single
  move-to to the first point.\<close>

definition moveTo :: "Externals \<Rightarrow> pnt list \<Rightarrow> string" where
  "moveTo ext pts =
     (case pts of
        [] \<Rightarrow> ''M 0 0 L 0 0''
      | p # rest \<Rightarrow> ''M '' @ toString ext (px p) @ '' '' @ toString ext (py p))"

text \<open>An instance of the outside functions, for evaluating examples: the outline and the
  resampled points are the input points themselves, and numbers other than 0 print as
  \<open>x\<close>.\<close>

definition sample_ext :: Externals where
  "sample_ext =
     \<lparr> getStroke = (\<lambda>pts opts. map xy pts),
       getStrokePoints = map xy,
       getSvgPathFromStroke = (\<lambda>stroke. if stroke = [] then [] else ''M''),
       toString = (\<lambda>x. if x = 0 then ''0'' else ''x''),
       toFixed2 = (\<lambda>x. if x = 0 then ''0.00'' else ''x''),
       replaceAll_decimals = (\<lambda>s. s) \<rparr>"

text \<open>The two elements that \<^verbatim>\<open>render\<close> can return: the dot, and the path with given
  path data.\<close>

definition dotElem :: "DrawShape \<Rightarrow> JSX" where
  "dotElem shape =
     Elem ''circle''
       ([(''r'', Num (size_s (style shape) * 0.32))] @ paintProps shape @
        [(''pointerEvents'', Str ''all'')])"

definition pathElem :: "DrawShape \<Rightarrow> string \<Rightarrow> JSX" where
  "pathElem shape d =
     Elem ''path''
       ([(''d'', Str d)] @ paintProps shape @
        [(''strokeLinejoin'', Str ''round''), (''strokeLinecap'', Str ''round''),
         (''pointerEvents'', Str ''all'')])"

text \<open>The bounds of the shape are narrower and lower than half the style's size.\<close>

definition thinBounds :: "DrawShape \<Rightarrow> bool" where
  "thinBounds shape \<longleftrightarrow>
     (case getBoundsFromPoints (elems (points shape)) of
        Inl e \<Rightarrow> False
      | Inr b \<Rightarrow> width b < size_s (style shape) / 2 \<and> height b < size_s (style shape) / 2)"

text \<open>A finished shape with three points close together, and a shape of four points
  still being drawn.\<close>

definition tap_shape :: DrawShape where
  "tap_shape = defaultProps
     \<lparr> obj_id := 4, points := \<lparr> arr_id = 4, elems = [(0, 0, Some 0.5), (1, 0, Some 0.5), (1, 1, Some 0.5)] \<rparr>,
       isDone := True \<rparr>"

definition drafting_shape :: DrawShape where
  "drafting_shape = defaultProps
     \<lparr> obj_id := 5, points := \<lparr> arr_id = 5, elems = [(0, 0, Some 0.5), (10, 0, Some 0.5), (10, 10, Some 0.7), (20, 10, Some 0.7)] \<rparr> \<rparr>"

text \<open>Two boxes overlap (their intervals overlap on both axes, touching counts), and a
  stroke crosses a box (some segment between consecutive points meets an edge of the
  box).\<close>

definition boxesOverlap :: "TLBounds \<Rightarrow> TLBounds \<Rightarrow> bool" where
  "boxesOverlap a b \<longleftrightarrow>
     minX a \<le> maxX b \<and> minX b \<le> maxX a \<and> minY a \<le> maxY b \<and> minY b \<le> maxY a"

definition strokeCrosses :: "pnt list \<Rightarrow> TLBounds \<Rightarrow> bool" where
  "strokeCrosses pts box \<longleftrightarrow>
     (\<exists>i. Suc i < length pts \<and> segmentHitsBounds box (xy (pts ! i), xy (pts ! Suc i)))"

text \<open>The condition for a hit as the specification words it: the query box intersects,
  contains or is contained by the shape's bounds, and if the boxes merely overlap, neither
  containing the other, some stroke segment crosses the query box.\<close>

definition claimed_hitTestBounds :: "TLBounds \<Rightarrow> TLBounds \<Rightarrow> bool \<Rightarrow> bool" where
  "claimed_hitTestBounds bounds query crossing \<longleftrightarrow>
     (boxesOverlap bounds query \<or> boundsContain query bounds \<or> boundsContain bounds query) \<and>
     (boxesOverlap bounds query \<and> \<not> boundsContain query bounds \<and> \<not> boundsContain bounds query
        \<longrightarrow> crossing)"

text \<open>Two query boxes for \<open>corner_shape\<close>: one inside its bounds away from the stroke,
  one across its right edge.\<close>

definition inner_box :: TLBounds where
  "inner_box = \<lparr> minX = 5, minY = 8, maxX = 7, maxY = 10, width = 2, height = 2 \<rparr>"

definition edge_box :: TLBounds where
  "edge_box = \<lparr> minX = 11, minY = 6, maxX = 15, maxY = 9, width = 4, height = 3 \<rparr>"

text \<open>The bounds of a returned partial shape: the bounds of its points, translated by
  its point.\<close>

definition partialBounds :: "PartialDrawShape \<Rightarrow> error + TLBounds" where
  "partialBounds r =
     (case getBoundsFromPoints (new_points r) of
        Inl e \<Rightarrow> Inl e
      | Inr b \<Rightarrow> Inr (translateBounds b (new_point r)))"

text \<open>A bounds record that is normalised and has positive width and height; a points
  sequence whose local bounds have their top-left corner at the local origin, as
  \<^verbatim>\<open>onSessionComplete\<close> leaves it; and one whose local bounds have a width and a height
  other than 0.\<close>

definition nonDegenerate :: "TLBounds \<Rightarrow> bool" where
  "nonDegenerate b \<longleftrightarrow>
     0 < width b \<and> 0 < height b \<and> width b = maxX b - minX b \<and> height b = maxY b - minY b"

definition settled :: "pnt list \<Rightarrow> bool" where
  "settled pts \<longleftrightarrow>
     (case getBoundsFromPoints pts of
        Inl e \<Rightarrow> False
      | Inr b \<Rightarrow> minX b = 0 \<and> minY b = 0)"

definition hasExtent :: "pnt list \<Rightarrow> bool" where
  "hasExtent pts \<longleftrightarrow>
     (case getBoundsFromPoints pts of
        Inl e \<Rightarrow> False
      | Inr b \<Rightarrow> width b \<noteq> 0 \<and> height b \<noteq> 0)"

text \<open>Target boxes, a finished vertical stroke, the transform info of a resize that
  starts from a given shape, and two results of \<^verbatim>\<open>transform\<close>.\<close>

definition big_box :: TLBounds where
  "big_box = \<lparr> minX = 0, minY = 0, maxX = 20, maxY = 20, width = 20, height = 20 \<rparr>"

definition far_box :: TLBounds where
  "far_box = \<lparr> minX = 100, minY = 50, maxX = 120, maxY = 80, width = 20, height = 30 \<rparr>"

definition vertical_shape :: DrawShape where
  "vertical_shape = defaultProps
     \<lparr> obj_id := 6, points := \<lparr> arr_id = 6, elems = [(0, 0, Some 0.5), (0, 10, Some 0.5)] \<rparr>, isDone := True \<rparr>"

definition resize :: "DrawShape \<Rightarrow> real \<Rightarrow> real \<Rightarrow> TLTransformInfo" where
  "resize shape sx sy = \<lparr> initialShape = shape, scaleX = sx, scaleY = sy \<rparr>"

definition offset_shape_scaled :: PartialDrawShape where
  "offset_shape_scaled =
     \<lparr> new_points = [(10, 14, Some 0.5), (30, 14, Some 0.5), (30, 34, Some 0.5)], new_point = (- 5, - 7) \<rparr>"

definition corner_shape_flipped :: PartialDrawShape where
  "corner_shape_flipped =
     \<lparr> new_points = [(20, 0, Some 0.5), (0, 0, Some 0.5), (0, 30, Some 0.5)], new_point = (100, 50) \<rparr>"








section \<open>Basic facts\<close>

lemma fold_min_Min: "fold min xs (x::real) = Min (set (x # xs))"
  by (rule Min.set_eq_fold [symmetric])

lemma fold_max_Max: "fold max xs (x::real) = Max (set (x # xs))"
  by (rule Max.set_eq_fold [symmetric])

lemma getBounds_value:
  assumes "pointsBoundsCache_ok this shape"
  shows "fst (getBounds this shape) =
         (case getBoundsFromPoints (elems (points shape)) of
            Inl e \<Rightarrow> Inl e
          | Inr b \<Rightarrow> Inr (translateBounds b (point shape)))"
  using assms
  by (auto simp: getBounds_def getFromCache_def pointsBoundsCache_ok_def
           split: option.splits sum.splits)

text \<open>\<open>getBounds\<close> keeps the cache invariant, and a second call returns what the first
  returned.\<close>

lemma getBounds_keeps_cache_ok:
  assumes "pointsBoundsCache_ok this shape"
  shows "pointsBoundsCache_ok (snd (getBounds this shape)) shape"
  using assms
  by (auto simp: getBounds_def getFromCache_def pointsBoundsCache_ok_def
           split: option.splits sum.splits)

lemma getBounds_again:
  assumes "pointsBoundsCache_ok this shape"
  shows "fst (getBounds (snd (getBounds this shape)) shape) = fst (getBounds this shape)"
  using getBounds_value [OF getBounds_keeps_cache_ok [OF assms]] getBounds_value [OF assms]
  by simp

lemma Min_image_attained:
  fixes f :: "'a \<Rightarrow> real"
  assumes "ws \<noteq> []"
  shows "\<exists>w \<in> set ws. f w = Min (f ` set ws)" "\<exists>w \<in> set ws. f w = Max (f ` set ws)"
proof -
  have "finite (f ` set ws)" "f ` set ws \<noteq> {}" using assms by simp_all
  then have "Min (f ` set ws) \<in> f ` set ws" "Max (f ` set ws) \<in> f ` set ws"
    by (rule Min_in, rule Max_in)
  then show "\<exists>w \<in> set ws. f w = Min (f ` set ws)" "\<exists>w \<in> set ws. f w = Max (f ` set ws)"
    by (auto simp: image_iff)
qed

lemma Min_image_bound:
  fixes f :: "'a \<Rightarrow> real"
  assumes "w \<in> set ws"
  shows "Min (f ` set ws) \<le> f w" "f w \<le> Max (f ` set ws)"
  using assms by simp_all

lemma envelope_fields:
  "minX (envelope v vs) = Min (fst ` set (v # vs))"
  "maxX (envelope v vs) = Max (fst ` set (v # vs))"
  "minY (envelope v vs) = Min (snd ` set (v # vs))"
  "maxY (envelope v vs) = Max (snd ` set (v # vs))"
  "width (envelope v vs) = maxX (envelope v vs) - minX (envelope v vs)"
  "height (envelope v vs) = maxY (envelope v vs) - minY (envelope v vs)"
  by (simp_all add: envelope_def Let_def fold_min_Min fold_max_Max)

lemma envelope_is_aabb: "is_aabb (envelope v vs) (v # vs)"
proof -
  have ne: "v # vs \<noteq> []" by simp
  show ?thesis
    unfolding is_aabb_def envelope_fields(1-4)
  proof (intro conjI ballI)
    fix w assume w: "w \<in> set (v # vs)"
    show "Min (fst ` set (v # vs)) \<le> fst w" by (rule Min_image_bound(1) [OF w])
    show "fst w \<le> Max (fst ` set (v # vs))" by (rule Min_image_bound(2) [OF w])
    show "Min (snd ` set (v # vs)) \<le> snd w" by (rule Min_image_bound(1) [OF w])
    show "snd w \<le> Max (snd ` set (v # vs))" by (rule Min_image_bound(2) [OF w])
  next
    show "\<exists>w\<in>set (v # vs). fst w = Min (fst ` set (v # vs))" by (rule Min_image_attained(1) [OF ne])
    show "\<exists>w\<in>set (v # vs). fst w = Max (fst ` set (v # vs))" by (rule Min_image_attained(2) [OF ne])
    show "\<exists>w\<in>set (v # vs). snd w = Min (snd ` set (v # vs))" by (rule Min_image_attained(1) [OF ne])
    show "\<exists>w\<in>set (v # vs). snd w = Max (snd ` set (v # vs))" by (rule Min_image_attained(2) [OF ne])
  qed (simp_all only: envelope_fields)
qed

lemma getBoundsFromPoints_aabb:
  assumes "pts \<noteq> []"
  shows "\<exists>b. getBoundsFromPoints pts = Inr b \<and> is_aabb b (map xy pts)"
proof (cases "map xy pts")
  case Nil
  with assms show ?thesis by simp
next
  case (Cons v vs)
  then show ?thesis
    using envelope_is_aabb [of v vs] by (simp add: getBoundsFromPoints_def)
qed

lemma new_Draw_pointsBoundsCache_ok: "pointsBoundsCache_ok new_Draw shape"
  by (simp add: pointsBoundsCache_ok_def new_Draw_def)

lemma Vec_rotWith_zero: "Vec_rotWith a c 0 = a"
  by (simp add: Vec_rotWith_def)

lemma getBoundsFromPoints_rot_zero: "getBoundsFromPoints_rot pts 0 = getBoundsFromPoints pts"
  by (simp add: getBoundsFromPoints_rot_def getBoundsFromPoints_def Vec_rotWith_zero
           split: list.splits)

section \<open>Bounds\<close>

text \<open>Claim C6. With a non-empty points sequence (and a cache entry, if there is one,
  that belongs to the present contents of the points array), \<open>getBounds\<close> returns the
  axis-aligned bounding box of the local points translated by the shape's point. For the
  points \<open>[[0,0,0.5],[10,0,0.5],[10,10,0.5]]\<close> that box is
  \<open>{minX:0, minY:0, maxX:10, maxY:10, width:10, height:10}\<close>.\<close>

theorem getBounds_translated_aabb:
  assumes "pointsBoundsCache_ok this shape"
  shows "(elems (points shape) \<noteq> [] \<longrightarrow>
            (\<exists>b. is_aabb b (map xy (elems (points shape))) \<and>
                 fst (getBounds this shape) = Inr (translateBounds b (point shape)))) \<and>
         (elems (points shape) = [(0, 0, Some 0.5), (10, 0, Some 0.5), (10, 10, Some 0.5)] \<longrightarrow>
            fst (getBounds this shape) =
              Inr (translateBounds
                     \<lparr> minX = 0, minY = 0, maxX = 10, maxY = 10, width = 10, height = 10 \<rparr>
                     (point shape)))"
proof (intro conjI impI)
  assume "elems (points shape) \<noteq> []"
  then obtain b where b: "getBoundsFromPoints (elems (points shape)) = Inr b"
      "is_aabb b (map xy (elems (points shape)))"
    using getBoundsFromPoints_aabb by blast
  then show "\<exists>b. is_aabb b (map xy (elems (points shape))) \<and>
       fst (getBounds this shape) = Inr (translateBounds b (point shape))"
    using getBounds_value [OF assms] by auto
next
  assume e: "elems (points shape) = [(0, 0, Some 0.5), (10, 0, Some 0.5), (10, 10, Some 0.5)]"
  have "getBoundsFromPoints (elems (points shape)) =
      Inr \<lparr> minX = 0, minY = 0, maxX = 10, maxY = 10, width = 10, height = 10 \<rparr>"
    unfolding e by (simp add: getBoundsFromPoints_def envelope_def xy_def px_def py_def)
  then show "fst (getBounds this shape) =
      Inr (translateBounds
             \<lparr> minX = 0, minY = 0, maxX = 10, maxY = 10, width = 10, height = 10 \<rparr>
             (point shape))"
    using getBounds_value [OF assms] by simp
qed

theorem getBounds_translated_aabb_witness:
  "pointsBoundsCache_ok new_Draw corner_shape \<and>
   fst (getBounds new_Draw corner_shape) =
     Inr \<lparr> minX = 3, minY = 4, maxX = 13, maxY = 14, width = 10, height = 10 \<rparr>"
  using getBounds_translated_aabb [of new_Draw corner_shape]
  by (simp add: new_Draw_pointsBoundsCache_ok corner_shape_def defaultProps_def translateBounds_def)

text \<open>Claim C5. For a shape whose rotation is 0, \<open>getRotatedBounds\<close> returns what
  \<open>getBounds\<close> returns (the same bounds, or the same failure on an empty points
  sequence).\<close>

theorem getRotatedBounds_unrotated:
  assumes "rotation shape = 0" and "pointsBoundsCache_ok this shape"
  shows "getRotatedBounds shape = fst (getBounds this shape)"
  using getBounds_value [OF assms(2)] assms(1)
  by (simp add: getRotatedBounds_def getBoundsFromPoints_rot_zero)

theorem getRotatedBounds_unrotated_witness:
  "rotation corner_shape = 0 \<and> pointsBoundsCache_ok new_Draw corner_shape \<and>
   getRotatedBounds corner_shape = fst (getBounds new_Draw corner_shape) \<and>
   getRotatedBounds corner_shape =
     Inr \<lparr> minX = 3, minY = 4, maxX = 13, maxY = 14, width = 10, height = 10 \<rparr>"
proof -
  have r: "rotation corner_shape = 0" by (simp add: corner_shape_def defaultProps_def)
  have g: "fst (getBounds new_Draw corner_shape) =
     Inr \<lparr> minX = 3, minY = 4, maxX = 13, maxY = 14, width = 10, height = 10 \<rparr>"
    by (simp add: getBounds_def getFromCache_def new_Draw_def corner_shape_def defaultProps_def
        getBoundsFromPoints_def envelope_def xy_def px_def py_def translateBounds_def)
  show ?thesis
    using getRotatedBounds_unrotated [OF r new_Draw_pointsBoundsCache_ok] r g
    by (simp add: new_Draw_pointsBoundsCache_ok)
qed

section \<open>Hit testing\<close>

text \<open>Claim C8. \<open>hitTest\<close> is true of every shape and every query point: it is the
  constant-true function, and so in particular true of every point within the shape's
  bounds.\<close>

theorem hitTest_always_true: "hitTest shape p"
  by (simp add: hitTest_def)

section \<open>The indicator path\<close>

lemma getSolidStrokePath_short:
  assumes "length (elems (points shape)) < 3"
  shows "getSolidStrokePath ext shape = Inr (moveTo ext (elems (points shape)))"
  using assms
  by (cases "elems (points shape)") (simp_all add: getSolidStrokePath_def moveTo_def Let_def)

lemma new_Draw_simplePathCache_ok: "simplePathCache_ok ext new_Draw shape"
  by (simp add: simplePathCache_ok_def new_Draw_def)

text \<open>Claim C9. With fewer than 3 points the indicator path is trivial: a single move-to
  to the first point for 1 or 2 points, the fixed path \<open>M 0 0 L 0 0\<close> for none; neither
  \<open>getSolidStrokePath\<close> nor \<open>renderIndicator\<close> fails.\<close>

theorem indicator_path_trivial:
  assumes "length (elems (points shape)) < 3" and "simplePathCache_ok ext this shape"
  shows "getSolidStrokePath ext shape = Inr (moveTo ext (elems (points shape))) \<and>
         fst (renderIndicator ext this shape) =
           Inr (Elem ''path'' [(''d'', Str (moveTo ext (elems (points shape))))])"
  using getSolidStrokePath_short [OF assms(1), of ext] assms(2)
  by (auto simp: renderIndicator_def getFromCache_def simplePathCache_ok_def
           split: option.splits)

theorem indicator_path_trivial_witness:
  "length (elems (points defaultProps)) < 3 \<and> simplePathCache_ok sample_ext new_Draw defaultProps \<and>
   fst (renderIndicator sample_ext new_Draw defaultProps) = Inr (Elem ''path'' [(''d'', Str ''M 0 0'')])"
proof -
  have l: "length (elems (points defaultProps)) < 3" by (simp add: defaultProps_def)
  have m: "moveTo sample_ext (elems (points defaultProps)) = ''M 0 0''"
    by (simp add: moveTo_def defaultProps_def sample_ext_def px_def py_def)
  show ?thesis
    using indicator_path_trivial [OF l new_Draw_simplePathCache_ok, of sample_ext] l m
    by (simp add: new_Draw_simplePathCache_ok)
qed

section \<open>Double arithmetic: the search for the spacing, and values\<close>































section \<open>Session completion\<close>













section \<open>Rendering\<close>

lemma getBounds_cases:
  assumes "pointsBoundsCache_ok this shape"
  obtains (fail) e t where "getBoundsFromPoints (elems (points shape)) = Inl e"
      "getBounds this shape = (Inl e, t)"
  | (ok) b t where "getBoundsFromPoints (elems (points shape)) = Inr b"
      "getBounds this shape = (Inr (translateBounds b (point shape)), t)"
      "strokeCache t = strokeCache this"
proof (cases "getBoundsFromPoints (elems (points shape))")
  case (Inl e)
  then have "fst (getBounds this shape) = Inl e"
    using getBounds_value [OF assms] by simp
  then show ?thesis using fail [OF Inl] by (cases "getBounds this shape") simp
next
  case (Inr b)
  then have "fst (getBounds this shape) = Inr (translateBounds b (point shape))"
    using getBounds_value [OF assms] by simp
  moreover have "strokeCache (snd (getBounds this shape)) = strokeCache this"
    by (simp add: getBounds_def getFromCache_def split: option.splits sum.splits)
  ultimately show ?thesis using ok [OF Inr] by (cases "getBounds this shape") simp
qed

text \<open>Claim C7. For a finished shape (\<open>isDone\<close>) with fewer than 3 points \<open>render\<close>
  returns a dot: a circle of radius \<open>0.32 * size\<close>, not a path. The same holds for a
  finished shape whose bounds are narrower and lower than half the size. (A finished
  shape has at least one point: the points are empty only while a stroke is begun.)\<close>

theorem render_dot:
  assumes "pointsBoundsCache_ok this shape" and "isDone shape"
    and "elems (points shape) \<noteq> []"
    and "length (elems (points shape)) < 3 \<or> thinBounds shape"
  shows "fst (render ext this shape isDarkMode) = Inr (dotElem shape) \<and>
         tagOf (dotElem shape) = ''circle'' \<and>
         propOf (dotElem shape) ''r'' = Some (Num (size_s (style shape) * 0.32))"
proof -
  from assms(1) have "fst (render ext this shape isDarkMode) = Inr (dotElem shape)"
  proof (cases rule: getBounds_cases)
    case (fail e t)
    with assms(3) show ?thesis
      by (cases "elems (points shape)") (simp_all add: getBoundsFromPoints_def)
  next
    case (ok b t)
    have "length (elems (points shape)) \<le> 2 \<or>
          (width b < size_s (style shape) / 2 \<and> height b < size_s (style shape) / 2)"
      using assms(4) ok(1) by (auto simp: thinBounds_def)
    then show ?thesis
      using ok(2) assms(2) by (simp add: render_def dotElem_def translateBounds_def)
  qed
  then show ?thesis by (simp add: dotElem_def tagOf_def propOf_def)
qed

theorem render_dot_witness:
  "pointsBoundsCache_ok new_Draw tap_shape \<and> isDone tap_shape \<and>
   elems (points tap_shape) \<noteq> [] \<and> thinBounds tap_shape \<and>
   fst (render sample_ext new_Draw tap_shape False) =
     Inr (Elem ''circle'' [(''r'', Num 2.56), (''fill'', Str ''#000''), (''stroke'', Str ''#000''),
                      (''strokeWidth'', Num 1), (''pointerEvents'', Str ''all'')])"
proof -
  have d: "isDone tap_shape" and ne: "elems (points tap_shape) \<noteq> []"
    by (simp_all add: tap_shape_def defaultProps_def)
  have t: "thinBounds tap_shape"
    by (simp add: thinBounds_def tap_shape_def defaultProps_def getBoundsFromPoints_def
        envelope_def xy_def px_def py_def)
  have e: "dotElem tap_shape =
     Elem ''circle'' [(''r'', Num 2.56), (''fill'', Str ''#000''), (''stroke'', Str ''#000''),
                      (''strokeWidth'', Num 1), (''pointerEvents'', Str ''all'')]"
    by (simp add: dotElem_def tap_shape_def defaultProps_def paintProps_def strokeWidthProp_def Let_def)
  show ?thesis
    using render_dot [OF new_Draw_pointsBoundsCache_ok d ne disjI2 [OF t], of sample_ext False] d ne t e
    by (simp add: new_Draw_pointsBoundsCache_ok)
qed

text \<open>Claim C10, as stated, fails for a finished shape of more than 2 points whose bounds
  are small against its size: \<open>render\<close> returns the dot and computes no outline.\<close>

theorem render_outline_counterexample:
  "2 < length (elems (points tap_shape)) \<and>
   fst (render sample_ext new_Draw tap_shape False) = Inr (dotElem tap_shape) \<and>
   dotElem tap_shape =
     Elem ''circle'' [(''r'', Num 2.56), (''fill'', Str ''#000''), (''stroke'', Str ''#000''),
                      (''strokeWidth'', Num 1), (''pointerEvents'', Str ''all'')] \<and>
   strokeCache (snd (render sample_ext new_Draw tap_shape False)) (obj_id tap_shape) = None"
  by (simp add: render_def getBounds_def getFromCache_def new_Draw_def tap_shape_def
      defaultProps_def getBoundsFromPoints_def envelope_def xy_def px_def py_def
      translateBounds_def dotElem_def paintProps_def strokeWidthProp_def Let_def)

text \<open>Claim C10, amended. For a shape with more than 2 points that is not drawn as a dot
  (it is unfinished, or its bounds reach half the size in width or height), \<open>render\<close>
  returns the path of the outline that \<open>getStroke\<close> computes from the points without the
  first two, stores that outline in the stroke cache, and passes the simulate-pressure
  flag as true exactly when the pressure of the second point is 0.5.\<close>

theorem render_outline:
  assumes "pointsBoundsCache_ok this shape"
    and "2 < length (elems (points shape))"
    and "\<not> (isDone shape \<and> thinBounds shape)"
  shows "fst (render ext this shape isDarkMode) =
           Inr (pathElem shape
                  (getSvgPathFromStroke ext
                     (getStroke ext (drop 2 (elems (points shape))) (strokeOptions shape)))) \<and>
         strokeCache (snd (render ext this shape isDarkMode)) (obj_id shape) =
           Some (getStroke ext (drop 2 (elems (points shape))) (strokeOptions shape)) \<and>
         (simulatePressure (strokeOptions shape) \<longleftrightarrow> pressure (elems (points shape) ! 1) = Some 0.5)"
proof -
  from assms(1) have "fst (render ext this shape isDarkMode) =
           Inr (pathElem shape
                  (getSvgPathFromStroke ext
                     (getStroke ext (drop 2 (elems (points shape))) (strokeOptions shape)))) \<and>
         strokeCache (snd (render ext this shape isDarkMode)) (obj_id shape) =
           Some (getStroke ext (drop 2 (elems (points shape))) (strokeOptions shape))"
  proof (cases rule: getBounds_cases)
    case (fail e t)
    with assms(2) show ?thesis
      by (cases "elems (points shape)") (simp_all add: getBoundsFromPoints_def)
  next
    case (ok b t)
    have "\<not> ((length (elems (points shape)) \<le> 2 \<or>
          (width b < size_s (style shape) / 2 \<and> height b < size_s (style shape) / 2)) \<and> isDone shape)"
      using assms(2,3) ok(1) by (auto simp: thinBounds_def)
    then show ?thesis
      using ok(2) assms(2) by (simp add: render_def pathElem_def translateBounds_def Let_def)
  qed
  then show ?thesis by (simp add: strokeOptions_def Let_def)
qed

theorem render_outline_witness:
  "pointsBoundsCache_ok new_Draw drafting_shape \<and> 2 < length (elems (points drafting_shape)) \<and>
   \<not> (isDone drafting_shape \<and> thinBounds drafting_shape) \<and>
   fst (render sample_ext new_Draw drafting_shape False) = Inr (pathElem drafting_shape ''M'') \<and>
   strokeCache (snd (render sample_ext new_Draw drafting_shape False)) (obj_id drafting_shape) =
     Some [(10, 10), (20, 10)] \<and>
   simulatePressure (strokeOptions drafting_shape)"
proof -
  have l: "2 < length (elems (points drafting_shape))"
    and n: "\<not> (isDone drafting_shape \<and> thinBounds drafting_shape)"
    by (simp_all add: drafting_shape_def defaultProps_def)
  have g: "getStroke sample_ext (drop 2 (elems (points drafting_shape))) (strokeOptions drafting_shape)
       = [(10, 10), (20, 10)]"
    by (simp add: sample_ext_def drafting_shape_def defaultProps_def xy_def px_def py_def)
  have p: "pressure (elems (points drafting_shape) ! 1) = Some 0.5"
    by (simp add: drafting_shape_def defaultProps_def pressure_def)
  show ?thesis
    using render_outline [OF new_Draw_pointsBoundsCache_ok l n, of sample_ext False] l n p
    by (simp add: new_Draw_pointsBoundsCache_ok g) (simp add: sample_ext_def)
qed

section \<open>Hit testing against a box\<close>

lemma Intersect_bounds_bounds_overlap: "Intersect_bounds_bounds a b \<noteq> [] \<longleftrightarrow> boxesOverlap a b"
  by (simp add: Intersect_bounds_bounds_def boxesOverlap_def)

lemma set_segments:
  "set (segments vs) = {(vs ! i, vs ! Suc i) | i. Suc i < length vs}"
proof (induction vs rule: segments.induct)
  case (1 a b rest)
  have "{((a # b # rest) ! i, (a # b # rest) ! Suc i) | i. Suc i < length (a # b # rest)}
        = insert (a, b) {((b # rest) ! i, (b # rest) ! Suc i) | i. Suc i < length (b # rest)}"
    (is "?L = insert _ ?R")
  proof (intro set_eqI iffI)
    fix s assume "s \<in> ?L"
    then obtain i where i: "s = ((a # b # rest) ! i, (a # b # rest) ! Suc i)"
        "Suc i < length (a # b # rest)" by blast
    show "s \<in> insert (a, b) ?R"
    proof (cases i)
      case 0
      with i show ?thesis by simp
    next
      case (Suc j)
      with i have "s = ((b # rest) ! j, (b # rest) ! Suc j)" "Suc j < length (b # rest)" by simp_all
      then show ?thesis by blast
    qed
  next
    fix s assume "s \<in> insert (a, b) ?R"
    then consider "s = (a, b)" | j where "s = ((b # rest) ! j, (b # rest) ! Suc j)" "Suc j < length (b # rest)"
      by blast
    then show "s \<in> ?L"
    proof cases
      case 1
      then have "s = ((a # b # rest) ! 0, (a # b # rest) ! Suc 0) \<and> Suc 0 < length (a # b # rest)" by simp
      then show ?thesis by blast
    next
      case 2
      then have "s = ((a # b # rest) ! Suc j, (a # b # rest) ! Suc (Suc j)) \<and> Suc (Suc j) < length (a # b # rest)" by simp
      then show ?thesis by blast
    qed
  qed
  with 1 show ?case by simp
qed simp_all

lemma ex_segments:
  "(\<exists>s \<in> set (segments vs). P s) \<longleftrightarrow> (\<exists>i. Suc i < length vs \<and> P (vs ! i, vs ! Suc i))"
  unfolding set_segments by blast

lemma Intersect_polyline_bounds_crosses:
  "Intersect_polyline_bounds (map xy pts) box \<noteq> [] \<longleftrightarrow> strokeCrosses pts box"
proof -
  have "Intersect_polyline_bounds (map xy pts) box \<noteq> [] \<longleftrightarrow>
        (\<exists>s \<in> set (segments (map xy pts)). segmentHitsBounds box s)"
    by (simp add: Intersect_polyline_bounds_def filter_empty_conv)
  also have "\<dots> \<longleftrightarrow> (\<exists>i. Suc i < length (map xy pts) \<and>
                          segmentHitsBounds box (map xy pts ! i, map xy pts ! Suc i))"
    by (rule ex_segments)
  also have "\<dots> \<longleftrightarrow> strokeCrosses pts box"
    unfolding strokeCrosses_def
  proof (intro iff_exI)
    fix i
    show "Suc i < length (map xy pts) \<and> segmentHitsBounds box (map xy pts ! i, map xy pts ! Suc i)
      \<longleftrightarrow> Suc i < length pts \<and> segmentHitsBounds box (xy (pts ! i), xy (pts ! Suc i))"
      by (cases "Suc i < length pts") simp_all
  qed
  finally show ?thesis .
qed

lemma corner_shape_bounds:
  "getBounds new_Draw corner_shape =
     (Inr \<lparr> minX = 3, minY = 4, maxX = 13, maxY = 14, width = 10, height = 10 \<rparr>,
      new_Draw\<lparr>pointsBoundsCache :=
        [1 \<mapsto> \<lparr> minX = 0, minY = 0, maxX = 10, maxY = 10, width = 10, height = 10 \<rparr>]\<rparr>)"
  by (simp add: getBounds_def getFromCache_def new_Draw_def corner_shape_def defaultProps_def
      getBoundsFromPoints_def envelope_def xy_def px_def py_def translateBounds_def)

lemma corner_shape_inner_box:
  "Intersect_polyline_bounds (map xy (elems (points corner_shape)))
     (translateBounds inner_box (Vec_neg (point corner_shape))) = []"
  by (simp add: corner_shape_def defaultProps_def inner_box_def translateBounds_def Vec_neg_def
      Intersect_polyline_bounds_def segmentHitsBounds_def edges_def segmentsMeet_def cross_def
      inBox_def xy_def px_def py_def Let_def)

lemma corner_shape_edge_box:
  "Intersect_polyline_bounds (map xy (elems (points corner_shape)))
     (translateBounds edge_box (Vec_neg (point corner_shape))) = [((10, 0), (10, 10))]"
  by (simp add: corner_shape_def defaultProps_def edge_box_def translateBounds_def Vec_neg_def
      Intersect_polyline_bounds_def segmentHitsBounds_def edges_def segmentsMeet_def cross_def
      inBox_def xy_def px_def py_def Let_def)

text \<open>Claim C2, as stated, fails for a query box that lies inside the shape's bounds and
  away from the stroke: the specification's condition holds (the box is contained by the
  bounds), and \<open>hitTestBounds\<close> returns false.\<close>

theorem hitTestBounds_counterexample:
  "rotation corner_shape = 0 \<and>
   fst (getBounds new_Draw corner_shape) =
     Inr \<lparr> minX = 3, minY = 4, maxX = 13, maxY = 14, width = 10, height = 10 \<rparr> \<and>
   fst (hitTestBounds new_Draw corner_shape inner_box) = Inr False \<and>
   claimed_hitTestBounds
     \<lparr> minX = 3, minY = 4, maxX = 13, maxY = 14, width = 10, height = 10 \<rparr> inner_box
     (strokeCrosses (elems (points corner_shape))
        (translateBounds inner_box (Vec_neg (point corner_shape))))"
proof -
  have r: "rotation corner_shape = 0" by (simp add: corner_shape_def defaultProps_def)
  have h: "fst (hitTestBounds new_Draw corner_shape inner_box) = Inr False"
    using r by (simp add: hitTestBounds_def corner_shape_bounds corner_shape_inner_box)
       (simp add: boundsContain_def inner_box_def)
  have c: "claimed_hitTestBounds
     \<lparr> minX = 3, minY = 4, maxX = 13, maxY = 14, width = 10, height = 10 \<rparr> inner_box
     (strokeCrosses (elems (points corner_shape))
        (translateBounds inner_box (Vec_neg (point corner_shape))))"
    by (simp add: claimed_hitTestBounds_def boxesOverlap_def boundsContain_def inner_box_def)
  from r h c show ?thesis by (simp add: corner_shape_bounds)
qed

text \<open>Claim C2, amended. For a shape with rotation 0 and a non-empty points sequence,
  \<open>hitTestBounds\<close> returns true if and only if the query box contains the shape's bounds,
  or the query box is contained by or overlaps the shape's bounds and some stroke segment
  crosses the query box (taken in the shape's local frame).\<close>

theorem hitTestBounds_unrotated:
  assumes "rotation shape = 0" and "pointsBoundsCache_ok this shape"
    and "elems (points shape) \<noteq> []"
  shows "\<exists>bounds. fst (getBounds this shape) = Inr bounds \<and>
           fst (hitTestBounds this shape query) =
             Inr (boundsContain query bounds \<or>
                  (boundsContain bounds query \<or> boxesOverlap bounds query) \<and>
                  strokeCrosses (elems (points shape))
                    (translateBounds query (Vec_neg (point shape))))"
proof -
  obtain b where b: "getBoundsFromPoints (elems (points shape)) = Inr b"
    using assms(3) by (cases "elems (points shape)") (simp_all add: getBoundsFromPoints_def)
  have g: "fst (getBounds this shape) = Inr (translateBounds b (point shape))"
    using getBounds_value [OF assms(2)] b by simp
  then obtain t where t: "getBounds this shape = (Inr (translateBounds b (point shape)), t)"
    by (cases "getBounds this shape") simp
  have "fst (hitTestBounds this shape query) =
             Inr (boundsContain query (translateBounds b (point shape)) \<or>
                  (boundsContain (translateBounds b (point shape)) query \<or>
                   boxesOverlap (translateBounds b (point shape)) query) \<and>
                  strokeCrosses (elems (points shape))
                    (translateBounds query (Vec_neg (point shape))))"
    using assms(1) t
    by (simp add: hitTestBounds_def Intersect_bounds_bounds_overlap
        Intersect_polyline_bounds_crosses)
  with g show ?thesis by blast
qed

theorem hitTestBounds_unrotated_witness:
  "rotation corner_shape = 0 \<and> pointsBoundsCache_ok new_Draw corner_shape \<and>
   elems (points corner_shape) \<noteq> [] \<and>
   strokeCrosses (elems (points corner_shape))
     (translateBounds edge_box (Vec_neg (point corner_shape))) \<and>
   fst (hitTestBounds new_Draw corner_shape edge_box) = Inr True"
proof -
  have r: "rotation corner_shape = 0" and ne: "elems (points corner_shape) \<noteq> []"
    by (simp_all add: corner_shape_def defaultProps_def)
  have s: "strokeCrosses (elems (points corner_shape))
     (translateBounds edge_box (Vec_neg (point corner_shape)))"
    using corner_shape_edge_box Intersect_polyline_bounds_crosses by (metis list.distinct(1))
  have o: "boxesOverlap \<lparr> minX = 3, minY = 4, maxX = 13, maxY = 14, width = 10, height = 10 \<rparr> edge_box"
    by (simp add: boxesOverlap_def edge_box_def)
  show ?thesis
    using hitTestBounds_unrotated [OF r new_Draw_pointsBoundsCache_ok ne, of edge_box] r ne s o
    by (auto simp: corner_shape_bounds new_Draw_pointsBoundsCache_ok)
qed

section \<open>Transform\<close>

lemma fold_min_mono:
  fixes f :: "real \<Rightarrow> real"
  assumes "mono f"
  shows "fold min (map (\<lambda>w. f (g w)) ws) (f a) = f (fold min (map g ws) a)"
proof (induction ws arbitrary: a)
  case Nil
  show ?case by simp
next
  case (Cons w ws)
  from Cons [of "min (g w) a"] show ?case by (simp add: min_of_mono [OF assms])
qed

lemma fold_max_mono:
  fixes f :: "real \<Rightarrow> real"
  assumes "mono f"
  shows "fold max (map (\<lambda>w. f (g w)) ws) (f a) = f (fold max (map g ws) a)"
proof (induction ws arbitrary: a)
  case Nil
  show ?case by simp
next
  case (Cons w ws)
  from Cons [of "max (g w) a"] show ?case by (simp add: max_of_mono [OF assms])
qed

lemma fold_min_anti:
  fixes f :: "real \<Rightarrow> real"
  assumes "antimono f"
  shows "fold min (map (\<lambda>w. f (g w)) ws) (f a) = f (fold max (map g ws) a)"
proof (induction ws arbitrary: a)
  case Nil
  show ?case by simp
next
  case (Cons w ws)
  from Cons [of "max (g w) a"] show ?case by (simp add: min_of_antimono [OF assms])
qed

lemma fold_max_anti:
  fixes f :: "real \<Rightarrow> real"
  assumes "antimono f"
  shows "fold max (map (\<lambda>w. f (g w)) ws) (f a) = f (fold min (map g ws) a)"
proof (induction ws arbitrary: a)
  case Nil
  show ?case by simp
next
  case (Cons w ws)
  from Cons [of "min (g w) a"] show ?case by (simp add: max_of_antimono [OF assms])
qed

lemma fold_min_le_max: "fold min xs (a::real) \<le> fold max xs a"
proof -
  have "fold min xs a \<le> a" "a \<le> fold max xs a"
    unfolding fold_min_Min fold_max_Max by simp_all
  then show ?thesis by simp
qed

text \<open>One coordinate of the scaling of transform: from the range 0..w onto 0..W.\<close>

lemma scaled_range:
  fixes W w s :: real
  defines "f \<equiv> \<lambda>x. W * (if s < 0 then 1 - x / w else x / w)"
  assumes "0 < W" and "w \<noteq> 0"
    and lo: "fold min (map g ps) (g p) = 0" and hi: "fold max (map g ps) (g p) = w"
  shows "fold min (map (\<lambda>q. f (g q)) ps) (f (g p)) = 0"
    and "fold max (map (\<lambda>q. f (g q)) ps) (f (g p)) = W"
proof -
  have "0 \<le> w" using fold_min_le_max [of "map g ps" "g p"] lo hi by simp
  with \<open>w \<noteq> 0\<close> have w: "0 < w" by simp
  show "fold min (map (\<lambda>q. f (g q)) ps) (f (g p)) = 0"
  proof (cases "s < 0")
    case True
    have "antimono f"
      using True w \<open>0 < W\<close> by (intro antimonoI) (simp add: f_def divide_right_mono)
    from fold_min_anti [of f g ps "g p", OF this] show ?thesis
      using True w by (simp add: hi f_def)
  next
    case False
    have "mono f"
      using False w \<open>0 < W\<close> by (intro monoI) (simp add: f_def divide_right_mono)
    from fold_min_mono [of f g ps "g p", OF this] show ?thesis
      using False by (simp add: lo f_def)
  qed
  show "fold max (map (\<lambda>q. f (g q)) ps) (f (g p)) = W"
  proof (cases "s < 0")
    case True
    have "antimono f"
      using True w \<open>0 < W\<close> by (intro antimonoI) (simp add: f_def divide_right_mono)
    from fold_max_anti [of f g ps "g p", OF this] show ?thesis
      using True by (simp add: lo f_def)
  next
    case False
    have "mono f"
      using False w \<open>0 < W\<close> by (intro monoI) (simp add: f_def divide_right_mono)
    from fold_max_mono [of f g ps "g p", OF this] show ?thesis
      using False w by (simp add: hi f_def)
  qed
qed

lemma pnt_simps:
  "px (x, y, r) = x" "py (x, y, r) = y" "pressure (x, y, r) = r" "xy (x, y, r) = (x, y)"
  "fst (xy q) = px q" "snd (xy q) = py q"
  by (simp_all add: px_def py_def pressure_def xy_def)

lemma scaled_bounds:
  fixes sx sy :: real
  assumes ib: "getBoundsFromPoints pts = Inr ib"
    and o: "minX ib = 0" "minY ib = 0" and e: "width ib \<noteq> 0" "height ib \<noteq> 0"
    and W: "0 < W" "0 < H"
  shows "getBoundsFromPoints
           (map (\<lambda>p. (W * (if sx < 0 then 1 - px p / width ib else px p / width ib),
                      H * (if sy < 0 then 1 - py p / height ib else py p / height ib),
                      pressure p)) pts)
         = Inr \<lparr> minX = 0, minY = 0, maxX = W, maxY = H, width = W, height = H \<rparr>"
proof (cases pts)
  case Nil
  with ib show ?thesis by (simp add: getBoundsFromPoints_def)
next
  case (Cons p ps)
  define fx where "fx = (\<lambda>x. W * (if sx < 0 then 1 - x / width ib else x / width ib))"
  define fy where "fy = (\<lambda>y. H * (if sy < 0 then 1 - y / height ib else y / height ib))"
  from Cons ib have b: "ib = envelope (xy p) (map xy ps)"
    by (simp add: getBoundsFromPoints_def)
  have x0: "fold min (map px ps) (px p) = 0" and y0: "fold min (map py ps) (py p) = 0"
    using o unfolding b by (simp_all add: envelope_def Let_def comp_def pnt_simps)
  have "maxX ib = width ib" "maxY ib = height ib"
    using o unfolding b by (simp_all add: envelope_def Let_def)
  then have x1: "fold max (map px ps) (px p) = width ib"
    and y1: "fold max (map py ps) (py p) = height ib"
    unfolding b by (simp_all add: envelope_def Let_def comp_def pnt_simps)
  have X: "fold min (map (\<lambda>q. fx (px q)) ps) (fx (px p)) = 0"
          "fold max (map (\<lambda>q. fx (px q)) ps) (fx (px p)) = W"
    unfolding fx_def by (rule scaled_range [OF W(1) e(1) x0 x1])+
  have Y: "fold min (map (\<lambda>q. fy (py q)) ps) (fy (py p)) = 0"
          "fold max (map (\<lambda>q. fy (py q)) ps) (fy (py p)) = H"
    unfolding fy_def by (rule scaled_range [OF W(2) e(2) y0 y1])+
  have m: "map xy (map (\<lambda>p. (fx (px p), fy (py p), pressure p)) pts)
        = (fx (px p), fy (py p)) # map (\<lambda>q. (fx (px q), fy (py q))) ps"
    unfolding Cons by (simp add: pnt_simps)
  have "getBoundsFromPoints (map (\<lambda>p. (fx (px p), fy (py p), pressure p)) pts)
         = Inr \<lparr> minX = 0, minY = 0, maxX = W, maxY = H, width = W, height = H \<rparr>"
    unfolding getBoundsFromPoints_def m
    by (simp add: envelope_def Let_def comp_def X Y)
  then show ?thesis unfolding fx_def fy_def .
qed

lemma new_Draw_boundsCache_ok: "boundsCache_ok new_Draw shape"
  by (simp add: boundsCache_ok_def new_Draw_def)

text \<open>Claim C1, as stated, fails: for a shape whose points do not start at the local
  origin the bounds of the result miss the target bounds, and for a shape whose initial
  bounds have width 0 the result has no finite coordinates.\<close>

theorem transform_counterexample:
  "nonDegenerate big_box \<and>
   fst (transform new_Draw offset_shape big_box (resize offset_shape 1 1)) = Inr offset_shape_scaled \<and>
   partialBounds offset_shape_scaled =
     Inr \<lparr> minX = 5, minY = 7, maxX = 25, maxY = 27, width = 20, height = 20 \<rparr> \<and>
   partialBounds offset_shape_scaled \<noteq> Inr big_box \<and>
   fst (transform new_Draw vertical_shape big_box (resize vertical_shape 1 1)) = Inl NotFinite"
proof -
  have 1: "nonDegenerate big_box" by (simp add: nonDegenerate_def big_box_def)
  have 2: "fst (transform new_Draw offset_shape big_box (resize offset_shape 1 1)) = Inr offset_shape_scaled"
    by (simp add: transform_def getFromCache_def new_Draw_def resize_def offset_shape_def
        defaultProps_def getBoundsFromPoints_def envelope_def pnt_simps big_box_def Vec_sub_def
        offset_shape_scaled_def)
  have 3: "partialBounds offset_shape_scaled =
     Inr \<lparr> minX = 5, minY = 7, maxX = 25, maxY = 27, width = 20, height = 20 \<rparr>"
    by (simp add: partialBounds_def offset_shape_scaled_def getBoundsFromPoints_def envelope_def
        pnt_simps translateBounds_def)
  have 4: "partialBounds offset_shape_scaled \<noteq> Inr big_box"
    unfolding 3 by (simp add: big_box_def)
  have 5: "fst (transform new_Draw vertical_shape big_box (resize vertical_shape 1 1)) = Inl NotFinite"
    by (simp add: transform_def getFromCache_def new_Draw_def resize_def vertical_shape_def
        defaultProps_def getBoundsFromPoints_def envelope_def pnt_simps)
  from 1 2 3 4 5 show ?thesis by simp
qed

text \<open>Claim C1, amended. If the points of the initial shape and of the shape have their
  local bounds' top-left corner at the local origin, and the initial bounds have a width
  and a height other than 0, then for every non-degenerate target bounds the bounds of
  the points that \<open>transform\<close> returns, translated by the point it returns, are the
  target bounds (exactly, over the reals), whatever the signs of the scale factors.\<close>

theorem transform_reaches_target:
  assumes "boundsCache_ok this (initialShape info)"
    and "settled (elems (points (initialShape info)))"
    and "hasExtent (elems (points (initialShape info)))"
    and "settled (elems (points shape))"
    and "nonDegenerate bounds"
  shows "\<exists>r. fst (transform this shape bounds info) = Inr r \<and> partialBounds r = Inr bounds"
proof -
  let ?ipts = "elems (points (initialShape info))"
  obtain ib where ib: "getBoundsFromPoints ?ipts = Inr ib" "minX ib = 0" "minY ib = 0"
    using assms(2) by (auto simp: settled_def split: sum.splits)
  have e: "width ib \<noteq> 0" "height ib \<noteq> 0"
    using assms(3) ib(1) by (simp_all add: hasExtent_def)
  obtain cb where cb: "getBoundsFromPoints (elems (points shape)) = Inr cb" "minX cb = 0" "minY cb = 0"
    using assms(4) by (auto simp: settled_def split: sum.splits)
  have W: "0 < width bounds" "0 < height bounds"
    and n: "width bounds = maxX bounds - minX bounds" "height bounds = maxY bounds - minY bounds"
    using assms(5) by (simp_all add: nonDegenerate_def)
  let ?pts = "map (\<lambda>p. (width bounds * (if scaleX info < 0 then 1 - px p / width ib else px p / width ib),
                      height bounds * (if scaleY info < 0 then 1 - py p / height ib else py p / height ib),
                      pressure p)) ?ipts"
  let ?r = "\<lparr> new_points = ?pts, new_point = Vec_sub (minX bounds, minY bounds) (minX cb, minY cb) \<rparr>"
  have c: "fst (getFromCache (boundsCache this) (obj_id (initialShape info)) (getBoundsFromPoints ?ipts)) = Inr ib"
    using assms(1) ib(1) by (auto simp: boundsCache_ok_def getFromCache_def split: option.splits)
  then obtain c' where "getFromCache (boundsCache this) (obj_id (initialShape info)) (getBoundsFromPoints ?ipts) = (Inr ib, c')"
    by (cases "getFromCache (boundsCache this) (obj_id (initialShape info)) (getBoundsFromPoints ?ipts)") simp
  then have t: "fst (transform this shape bounds info) = Inr ?r"
    using cb(1) e by (simp add: transform_def Let_def)
  have "getBoundsFromPoints ?pts =
      Inr \<lparr> minX = 0, minY = 0, maxX = width bounds, maxY = height bounds,
            width = width bounds, height = height bounds \<rparr>"
    by (rule scaled_bounds [OF ib e W])
  then have "partialBounds ?r = Inr bounds"
    using n cb(2,3) by (simp add: partialBounds_def translateBounds_def Vec_sub_def)
  with t show ?thesis by blast
qed

theorem transform_reaches_target_witness:
  "boundsCache_ok new_Draw (initialShape (resize corner_shape (- 1) 1)) \<and>
   settled (elems (points (initialShape (resize corner_shape (- 1) 1)))) \<and>
   hasExtent (elems (points (initialShape (resize corner_shape (- 1) 1)))) \<and>
   settled (elems (points corner_shape)) \<and> nonDegenerate far_box \<and>
   fst (transform new_Draw corner_shape far_box (resize corner_shape (- 1) 1)) =
     Inr corner_shape_flipped \<and>
   partialBounds corner_shape_flipped = Inr far_box"
proof -
  have i: "initialShape (resize corner_shape (- 1) 1) = corner_shape" by (simp add: resize_def)
  have s: "settled (elems (points corner_shape))" and h: "hasExtent (elems (points corner_shape))"
    by (simp_all add: settled_def hasExtent_def corner_shape_def defaultProps_def
        getBoundsFromPoints_def envelope_def pnt_simps)
  have n: "nonDegenerate far_box" by (simp add: nonDegenerate_def far_box_def)
  have t: "fst (transform new_Draw corner_shape far_box (resize corner_shape (- 1) 1)) =
     Inr corner_shape_flipped"
    by (simp add: transform_def getFromCache_def new_Draw_def resize_def corner_shape_def
        defaultProps_def getBoundsFromPoints_def envelope_def pnt_simps far_box_def Vec_sub_def
        corner_shape_flipped_def)
  show ?thesis
    using transform_reaches_target [of new_Draw "resize corner_shape (- 1) 1" corner_shape far_box]
      s h n t
    by (simp add: i new_Draw_boundsCache_ok)
qed

end
